theory Spec2Isabelle
  imports Complex_Main
begin

section \<open>Single-precision arithmetic\<close>

text \<open>
  The converter computes on the C++ type \<^verbatim>\<open>float\<close>, taken here to be IEEE-754
  binary32 with the default rounding (to nearest, ties to even), every operation rounded
  on its own (no fused multiply-add, no wider intermediate format). A finite value is
  \<open>Fin32 s m e\<close>, standing for \<open>(-1)^s * m * 2^e\<close>; the values of the format are the
  canonical triples singled out by \<open>is_f32\<close> (24 bits of significand, exponent of the
  last place between -149 and 104, subnormals at -149). There is one NaN: payloads are
  not observable by the program.
\<close>

datatype f32 = Fin32 bool nat int | Inf32 bool | NaN32

fun is_f32 :: "f32 \<Rightarrow> bool" where
  "is_f32 (Fin32 s m e) = (m < 2 ^ 24 \<and> - 149 \<le> e \<and> e \<le> 104 \<and> (2 ^ 23 \<le> m \<or> e = - 149))"
| "is_f32 (Inf32 s) = True"
| "is_f32 NaN32 = True"

fun is_finite :: "f32 \<Rightarrow> bool" where
  "is_finite (Fin32 s m e) = True"
| "is_finite (Inf32 s) = False"
| "is_finite NaN32 = False"

definition pow2 :: "int \<Rightarrow> rat" where
  "pow2 e = (if 0 \<le> e then 2 ^ nat e else 1 / 2 ^ nat (- e))"

definition sgn_of :: "bool \<Rightarrow> rat" where
  "sgn_of s = (if s then - 1 else 1)"

text \<open>The rational number a finite value stands for (0 on infinities and NaN, where it
  is never used without \<open>is_finite\<close>).\<close>

fun valof :: "f32 \<Rightarrow> rat" where
  "valof (Fin32 s m e) = sgn_of s * of_nat m * pow2 e"
| "valof (Inf32 s) = 0"
| "valof NaN32 = 0"

text \<open>The number of binary digits of \<open>n\<close>.\<close>

fun bit_length :: "nat \<Rightarrow> int" where
  "bit_length n = (if n = 0 then 0 else bit_length (n div 2) + 1)"

declare bit_length.simps [simp del]

text \<open>\<open>floor_log2 n d\<close> is the integer \<open>k\<close> with \<open>2^k \<le> n/d < 2^(k+1)\<close>, for positive
  \<open>n\<close> and \<open>d\<close>: the difference of the bit lengths, or one less.\<close>

definition floor_log2_near :: "nat \<Rightarrow> nat \<Rightarrow> int \<Rightarrow> int" where
  "floor_log2_near n d k =
     (if (if 0 \<le> k then d * 2 ^ nat k \<le> n else d \<le> n * 2 ^ nat (- k)) then k else k - 1)"

definition floor_log2 :: "nat \<Rightarrow> nat \<Rightarrow> int" where
  "floor_log2 n d = floor_log2_near n d (bit_length n - bit_length d)"

text \<open>The integer nearest to \<open>n/d\<close>, the even one of two equally near: from the
  quotient \<open>q\<close> and the remainder \<open>r\<close>.\<close>

definition nearest_even :: "nat \<Rightarrow> nat \<Rightarrow> nat \<Rightarrow> nat" where
  "nearest_even q r d =
     (if 2 * r < d then q
      else if d < 2 * r then q + 1
      else if even q then q else q + 1)"

definition round_half_even :: "nat \<Rightarrow> nat \<Rightarrow> nat" where
  "round_half_even n d = nearest_even (n div d) (n mod d) d"

text \<open>The integer nearest to \<open>(n/d) * 2^sh\<close>.\<close>

definition round_scaled :: "nat \<Rightarrow> nat \<Rightarrow> int \<Rightarrow> nat" where
  "round_scaled n d sh =
     (if 0 \<le> sh then round_half_even (n * 2 ^ nat sh) d
      else round_half_even n (d * 2 ^ nat (- sh)))"

text \<open>The value \<open>(-1)^s * m * 2^x\<close> with \<open>m \<le> 2^24\<close> as a member of the format: a
  significand rounded up to \<open>2^24\<close> moves to the next exponent, and an exponent beyond
  104 is an overflow.\<close>

definition pack :: "bool \<Rightarrow> nat \<Rightarrow> int \<Rightarrow> f32" where
  "pack s m x =
     (if m = 2 ^ 24 then (if 104 < x + 1 then Inf32 s else Fin32 s (2 ^ 23) (x + 1))
      else if 104 < x then Inf32 s else Fin32 s m x)"

text \<open>Rounding \<open>(-1)^s * (n/d) * 2^e\<close> to the multiple of \<open>2^x\<close> nearest to it.\<close>

definition round_at :: "bool \<Rightarrow> nat \<Rightarrow> nat \<Rightarrow> int \<Rightarrow> int \<Rightarrow> f32" where
  "round_at s n d e x = pack s (round_scaled n d (e - x)) x"

text \<open>\<open>round_f32 s n d e\<close> rounds the exact result \<open>(-1)^s * (n/d) * 2^e\<close> into the
  format, to 24 significant bits and no finer than \<open>2^-149\<close>: overflow gives an
  infinity, underflow is gradual.\<close>

definition round_f32 :: "bool \<Rightarrow> nat \<Rightarrow> nat \<Rightarrow> int \<Rightarrow> f32" where
  "round_f32 s n d e =
     (if n = 0 then Fin32 s 0 (- 149)
      else round_at s n d e (max (floor_log2 n d + e) (- 126) - 23))"

text \<open>A decimal literal \<open>n/d\<close> of the source, such as \<^verbatim>\<open>453.592f\<close>.\<close>

definition f32_lit :: "nat \<Rightarrow> nat \<Rightarrow> f32" where
  "f32_lit n d = round_f32 False n d 0"

text \<open>\<open>(-1)^s * m * 2^e\<close> as a multiple of \<open>2^e0\<close>, for \<open>e0 \<le> e\<close>.\<close>

definition scaled :: "bool \<Rightarrow> nat \<Rightarrow> int \<Rightarrow> int \<Rightarrow> int" where
  "scaled s m e e0 = (if s then - 1 else 1) * int m * 2 ^ nat (e - e0)"

fun fneg :: "f32 \<Rightarrow> f32" where
  "fneg (Fin32 s m e) = Fin32 (\<not> s) m e"
| "fneg (Inf32 s) = Inf32 (\<not> s)"
| "fneg NaN32 = NaN32"

fun fabs :: "f32 \<Rightarrow> f32" where
  "fabs (Fin32 s m e) = Fin32 False m e"
| "fabs (Inf32 s) = Inf32 False"
| "fabs NaN32 = NaN32"

text \<open>The comparison \<^verbatim>\<open><\<close>: false as soon as an operand is NaN.\<close>

fun flt :: "f32 \<Rightarrow> f32 \<Rightarrow> bool" where
  "flt (Fin32 s1 m1 e1) (Fin32 s2 m2 e2) =
     (scaled s1 m1 e1 (min e1 e2) < scaled s2 m2 e2 (min e1 e2))"
| "flt (Fin32 s1 m1 e1) (Inf32 s2) = (\<not> s2)"
| "flt (Inf32 s1) (Fin32 s2 m2 e2) = s1"
| "flt (Inf32 s1) (Inf32 s2) = (s1 \<and> \<not> s2)"
| "flt NaN32 y = False"
| "flt x NaN32 = False"

text \<open>The sum \<open>t * 2^e\<close> computed exactly, then rounded; an exact zero is negative only
  when both operands are (\<open>z\<close>).\<close>

definition round_sum :: "bool \<Rightarrow> int \<Rightarrow> int \<Rightarrow> f32" where
  "round_sum z t e = (if t = 0 then Fin32 z 0 (- 149) else round_f32 (t < 0) (nat \<bar>t\<bar>) 1 e)"

fun fadd :: "f32 \<Rightarrow> f32 \<Rightarrow> f32" where
  "fadd (Fin32 s1 m1 e1) (Fin32 s2 m2 e2) =
     round_sum (s1 \<and> s2) (scaled s1 m1 e1 (min e1 e2) + scaled s2 m2 e2 (min e1 e2)) (min e1 e2)"
| "fadd (Fin32 s1 m1 e1) (Inf32 s2) = Inf32 s2"
| "fadd (Inf32 s1) (Fin32 s2 m2 e2) = Inf32 s1"
| "fadd (Inf32 s1) (Inf32 s2) = (if s1 = s2 then Inf32 s1 else NaN32)"
| "fadd NaN32 y = NaN32"
| "fadd x NaN32 = NaN32"

definition fsub :: "f32 \<Rightarrow> f32 \<Rightarrow> f32" where
  "fsub x y = fadd x (fneg y)"

fun fmul :: "f32 \<Rightarrow> f32 \<Rightarrow> f32" where
  "fmul (Fin32 s1 m1 e1) (Fin32 s2 m2 e2) = round_f32 (s1 \<noteq> s2) (m1 * m2) 1 (e1 + e2)"
| "fmul (Fin32 s1 m1 e1) (Inf32 s2) = (if m1 = 0 then NaN32 else Inf32 (s1 \<noteq> s2))"
| "fmul (Inf32 s1) (Fin32 s2 m2 e2) = (if m2 = 0 then NaN32 else Inf32 (s1 \<noteq> s2))"
| "fmul (Inf32 s1) (Inf32 s2) = Inf32 (s1 \<noteq> s2)"
| "fmul NaN32 y = NaN32"
| "fmul x NaN32 = NaN32"

fun fdiv :: "f32 \<Rightarrow> f32 \<Rightarrow> f32" where
  "fdiv (Fin32 s1 m1 e1) (Fin32 s2 m2 e2) =
     (if m2 = 0 then (if m1 = 0 then NaN32 else Inf32 (s1 \<noteq> s2))
      else round_f32 (s1 \<noteq> s2) m1 m2 (e1 - e2))"
| "fdiv (Fin32 s1 m1 e1) (Inf32 s2) = Fin32 (s1 \<noteq> s2) 0 (- 149)"
| "fdiv (Inf32 s1) (Fin32 s2 m2 e2) = Inf32 (s1 \<noteq> s2)"
| "fdiv (Inf32 s1) (Inf32 s2) = NaN32"
| "fdiv NaN32 y = NaN32"
| "fdiv x NaN32 = NaN32"


section \<open>The linear conversion\<close>

text \<open>The constructor of \<^verbatim>\<open>linear\<close> throws the string
  \<^verbatim>\<open>'factor' argument is too small!\<close>; a \<^verbatim>\<open>metric_conversion_type\<close> with no
  specialization is an incomplete type, which the compiler rejects.\<close>

datatype fault = Factor_too_small | Incomplete_type

record linear =
  m_factor :: f32
  m_divider :: f32
  m_offset :: f32

definition EPSILON :: f32 where
  "EPSILON = f32_lit 1 (10 ^ 10)"

definition linear_ctor :: "f32 \<Rightarrow> f32 \<Rightarrow> fault + linear" where
  "linear_ctor factor offset =
     (if flt (fabs factor) EPSILON then Inl Factor_too_small
      else Inr \<lparr>m_factor = factor, m_divider = fdiv (f32_lit 1 1) factor, m_offset = offset\<rparr>)"

definition linear_forward :: "linear \<Rightarrow> f32 \<Rightarrow> f32" where
  "linear_forward l v = fadd (fmul (m_factor l) v) (m_offset l)"

definition linear_backward :: "linear \<Rightarrow> f32 \<Rightarrow> f32" where
  "linear_backward l v = fmul (fsub v (m_offset l)) (m_divider l)"


section \<open>Metrics and the declared conversions\<close>

datatype metric = gramm | lb | pood | meter | mile | verst | celsius | fahrenheit | kelvin

fun signature :: "metric \<Rightarrow> string" where
  "signature gramm = ''g''"
| "signature lb = ''lb''"
| "signature pood = ''p''"
| "signature meter = ''m''"
| "signature mile = ''ml''"
| "signature verst = ''v''"
| "signature celsius = ''c''"
| "signature fahrenheit = ''f''"
| "signature kelvin = ''k''"

text \<open>The metric tuples: the first component is the primary metric.\<close>

definition weight_metrics :: "metric list" where
  "weight_metrics = [gramm, lb, pood]"

definition distance_metrics :: "metric list" where
  "distance_metrics = [meter, mile, verst]"

definition temperature_metrics :: "metric list" where
  "temperature_metrics = [celsius, fahrenheit, kelvin]"

text \<open>The specializations of \<^verbatim>\<open>metric_conversion_type\<close>: the object each one
  constructs. The second argument of \<^verbatim>\<open>linear\<close> defaults to \<^verbatim>\<open>0.f\<close>.\<close>

fun metric_conversion_type :: "metric \<Rightarrow> metric \<Rightarrow> fault + linear" where
  "metric_conversion_type gramm lb = linear_ctor (f32_lit 453592 1000) (f32_lit 0 1)"
| "metric_conversion_type gramm pood = linear_ctor (f32_lit 163807 10) (f32_lit 0 1)"
| "metric_conversion_type meter mile = linear_ctor (f32_lit 160934 100) (f32_lit 0 1)"
| "metric_conversion_type meter verst = linear_ctor (f32_lit 10668 10) (f32_lit 0 1)"
| "metric_conversion_type celsius fahrenheit =
     linear_ctor (fdiv (f32_lit 9 1) (f32_lit 5 1)) (f32_lit 32 1)"
| "metric_conversion_type celsius kelvin = linear_ctor (f32_lit 1 1) (f32_lit 27315 100)"
| "metric_conversion_type p m = Inl Incomplete_type"

text \<open>The member functions found by a call on the specialization: the celsius/fahrenheit
  one hides both members of \<^verbatim>\<open>linear\<close> with their swap.\<close>

fun forward :: "metric \<Rightarrow> metric \<Rightarrow> linear \<Rightarrow> f32 \<Rightarrow> f32" where
  "forward celsius fahrenheit l v = linear_backward l v"
| "forward p m l v = linear_forward l v"

fun backward :: "metric \<Rightarrow> metric \<Rightarrow> linear \<Rightarrow> f32 \<Rightarrow> f32" where
  "backward celsius fahrenheit l v = linear_forward l v"
| "backward p m l v = linear_backward l v"

text \<open>\<^verbatim>\<open>converter_factory::converter<_primary, _minor>()\<close> hands out one object per
  thread, constructed at the first call and never changed: each call sees the object the
  constructor makes, or the constructor's exception.\<close>

definition converter_factory_converter :: "metric \<Rightarrow> metric \<Rightarrow> fault + linear" where
  "converter_factory_converter p m = metric_conversion_type p m"


section \<open>Converters\<close>

datatype metrics_converter =
    primary_metrics_converter metric metric bool
  | minor_metrics_converter metric metric metric

fun from_signature :: "metrics_converter \<Rightarrow> string" where
  "from_signature (primary_metrics_converter p m direction) =
     signature (if \<not> direction then p else m)"
| "from_signature (minor_metrics_converter p first_minor second_minor) = signature second_minor"

fun to_signature :: "metrics_converter \<Rightarrow> string" where
  "to_signature (primary_metrics_converter p m direction) =
     signature (if direction then p else m)"
| "to_signature (minor_metrics_converter p first_minor second_minor) = signature first_minor"

text \<open>In the minor/minor converter the object of the second minor is obtained first: it
  is the object of the outer call, and the call of \<open>backward\<close> on the first minor's
  object is its argument.\<close>

fun convert :: "metrics_converter \<Rightarrow> f32 \<Rightarrow> fault + f32" where
  "convert (primary_metrics_converter p m direction) v =
     (if p = m then Inr v
      else if direction then
        (case converter_factory_converter p m of
           Inl err \<Rightarrow> Inl err
         | Inr l \<Rightarrow> Inr (forward p m l v))
      else
        (case converter_factory_converter p m of
           Inl err \<Rightarrow> Inl err
         | Inr l \<Rightarrow> Inr (backward p m l v)))"
| "convert (minor_metrics_converter p first_minor second_minor) v =
     (if first_minor = second_minor then Inr v
      else
        (case converter_factory_converter p second_minor of
           Inl err \<Rightarrow> Inl err
         | Inr l2 \<Rightarrow>
             (case converter_factory_converter p first_minor of
                Inl err \<Rightarrow> Inl err
              | Inr l1 \<Rightarrow> Inr (forward p second_minor l2 (backward p first_minor l1 v)))))"


section \<open>The chain of responsible actors\<close>

definition is_reponsible :: "metrics_converter \<Rightarrow> string \<Rightarrow> string \<Rightarrow> bool" where
  "is_reponsible c from to = (from_signature c = from \<and> to_signature c = to)"

text \<open>A chain is the list of its actors, the head first: an actor that is not
  responsible passes the request to its \<^verbatim>\<open>m_next\<close>, and the end of the chain
  answers \<^verbatim>\<open>std::nullopt\<close>.\<close>

fun responsible_process ::
  "metrics_converter list \<Rightarrow> string \<Rightarrow> string \<Rightarrow> f32 \<Rightarrow> fault + f32 option" where
  "responsible_process [] from to v = Inr None"
| "responsible_process (c # next) from to v =
     (if is_reponsible c from to
      then (case convert c v of Inl err \<Rightarrow> Inl err | Inr r \<Rightarrow> Inr (Some r))
      else responsible_process next from to v)"

text \<open>\<^verbatim>\<open>converter_traits\<close> of a metric tuple: the primary with each minor in both
  directions, then every first minor with every minor.\<close>

fun converter_traits :: "metric list \<Rightarrow> metrics_converter list" where
  "converter_traits [] = []"
| "converter_traits (p # minors) =
     map (\<lambda>m. primary_metrics_converter p m True) minors @
     map (\<lambda>m. primary_metrics_converter p m False) minors @
     concat (map (\<lambda>first_minor. map (\<lambda>other. minor_metrics_converter p first_minor other) minors)
       minors)"

text \<open>\<^verbatim>\<open>add_responsibles\<close> puts each new actor in front of the chain built so far.\<close>

fun add_responsibles :: "metrics_converter list \<Rightarrow> metrics_converter list \<Rightarrow> metrics_converter list" where
  "add_responsibles [] m_responsible = m_responsible"
| "add_responsibles (c # other) m_responsible = add_responsibles other (c # m_responsible)"

fun add_responsible_groups :: "metric list list \<Rightarrow> metrics_converter list \<Rightarrow> metrics_converter list" where
  "add_responsible_groups [] m_responsible = m_responsible"
| "add_responsible_groups (g # rest) m_responsible =
     add_responsible_groups rest (add_responsibles (converter_traits g) m_responsible)"

text \<open>The converter that \<^verbatim>\<open>main.cpp\<close> instantiates, and its \<^verbatim>\<open>process\<close>.\<close>

definition converter :: "metrics_converter list" where
  "converter = add_responsible_groups [weight_metrics, distance_metrics, temperature_metrics] []"

definition process :: "string \<Rightarrow> string \<Rightarrow> f32 \<Rightarrow> fault + f32 option" where
  "process from to v = responsible_process converter from to v"


section \<open>Error bounds\<close>

text \<open>Rounding to nearest errs by at most \<open>2^-24\<close> of the exact result, or by
  \<open>2^-150\<close> when the result is subnormal.\<close>

definition unit_roundoff :: rat where
  "unit_roundoff = 1 / 2 ^ 24"

definition underflow_unit :: rat where
  "underflow_unit = 1 / 2 ^ 150"

text \<open>The tolerance of the round-trip properties: a relative error of \<open>10^-6\<close> and an
  absolute error of \<open>10^-3\<close>.\<close>

definition close_to :: "rat \<Rightarrow> rat \<Rightarrow> bool" where
  "close_to r v \<longleftrightarrow> \<bar>r - v\<bar> \<le> \<bar>v\<bar> / 10 ^ 6 + 1 / 10 ^ 3"

text \<open>
  A computed value \<open>x\<close> that depends on an input of value \<open>V\<close> is followed by a bound
  \<open>(c, d, a, b)\<close>: the exact affine function \<open>c * V + d\<close> it approximates, and the error
  \<open>a * \<bar>V\<bar> + b\<close>. Adding a constant (\<open>shift\<close>) and multiplying by a constant
  (\<open>scale\<close>), each followed by one rounding, transform the bound.
\<close>

definition grow :: "rat \<Rightarrow> rat \<Rightarrow> rat" where
  "grow c a = a + unit_roundoff * (\<bar>c\<bar> + a)"

type_synonym bound = "rat \<times> rat \<times> rat \<times> rat"

fun tracks :: "rat \<Rightarrow> rat \<Rightarrow> bound \<Rightarrow> bool" where
  "tracks x V (c, d, a, b) \<longleftrightarrow> 0 \<le> a \<and> 0 \<le> b \<and> \<bar>x - (c * V + d)\<bar> \<le> a * \<bar>V\<bar> + b"

fun shift :: "rat \<Rightarrow> bound \<Rightarrow> bound" where
  "shift k (c, d, a, b) = (c, d + k, grow c a, grow (d + k) b + underflow_unit)"

fun scale :: "rat \<Rightarrow> bound \<Rightarrow> bound" where
  "scale k (c, d, a, b) = (c * k, d * k, \<bar>k\<bar> * grow c a, \<bar>k\<bar> * grow d b + underflow_unit)"

definition forward_bound :: "linear \<Rightarrow> bound \<Rightarrow> bound" where
  "forward_bound l B = shift (valof (m_offset l)) (scale (valof (m_factor l)) B)"

definition backward_bound :: "linear \<Rightarrow> bound \<Rightarrow> bound" where
  "backward_bound l B = scale (valof (m_divider l)) (shift (- valof (m_offset l)) B)"

fun within_tolerance :: "bound \<Rightarrow> bool" where
  "within_tolerance (c, d, a, b) \<longleftrightarrow> a + \<bar>c - 1\<bar> \<le> 1 / 10 ^ 6 \<and> b + \<bar>d\<bar> \<le> 1 / 10 ^ 3"

fun within_ratio :: "rat \<Rightarrow> rat \<Rightarrow> bound \<Rightarrow> bool" where
  "within_ratio q t (c, d, a, b) \<longleftrightarrow> 0 \<le> q \<and> a + \<bar>c - q\<bar> \<le> q / 10 ^ 6 \<and> b + \<bar>d\<bar> \<le> t"

text \<open>A composition of \<^verbatim>\<open>linear::forward\<close> and \<^verbatim>\<open>linear::backward\<close> calls, the first
  step applied first, and the bound it yields.\<close>

datatype step = Fwd linear | Bwd linear

fun run :: "step list \<Rightarrow> f32 \<Rightarrow> f32" where
  "run [] v = v"
| "run (Fwd l # ss) v = run ss (linear_forward l v)"
| "run (Bwd l # ss) v = run ss (linear_backward l v)"

fun run_bound :: "step list \<Rightarrow> bound \<Rightarrow> bound" where
  "run_bound [] B = B"
| "run_bound (Fwd l # ss) B = run_bound ss (forward_bound l B)"
| "run_bound (Bwd l # ss) B = run_bound ss (backward_bound l B)"

text \<open>The step behind \<open>forward\<close> and \<open>backward\<close> of a specialization.\<close>

fun forward_step :: "metric \<Rightarrow> metric \<Rightarrow> linear \<Rightarrow> step" where
  "forward_step celsius fahrenheit l = Bwd l"
| "forward_step p m l = Fwd l"

fun backward_step :: "metric \<Rightarrow> metric \<Rightarrow> linear \<Rightarrow> step" where
  "backward_step celsius fahrenheit l = Fwd l"
| "backward_step p m l = Bwd l"


section \<open>Values and comparison\<close>

lemma pow2_powi: "pow2 e = 2 powi e"
  by (simp add: pow2_def power_int_def power_one_over)

lemma pow2_pos [simp]: "0 < pow2 e"
  by (simp add: pow2_def)

lemma pow2_add: "pow2 (a + b) = pow2 a * pow2 b"
  by (simp add: pow2_powi power_int_add)

lemma pow2_nat: "0 \<le> e \<Longrightarrow> pow2 e = 2 ^ nat e"
  by (simp add: pow2_def)

lemma valof_scaled:
  assumes "e0 \<le> e"
  shows "valof (Fin32 s m e) = of_int (scaled s m e e0) * pow2 e0"
proof -
  have "pow2 e = pow2 ((e - e0) + e0)" by simp
  also have "\<dots> = 2 ^ nat (e - e0) * pow2 e0"
    using assms by (simp only: pow2_add) (simp add: pow2_nat)
  finally show ?thesis
    by (simp add: scaled_def sgn_of_def)
qed

lemma flt_finite:
  "flt (Fin32 s1 m1 e1) (Fin32 s2 m2 e2) \<longleftrightarrow> valof (Fin32 s1 m1 e1) < valof (Fin32 s2 m2 e2)"
proof -
  let ?e = "min e1 e2"
  have "valof (Fin32 s1 m1 e1) = of_int (scaled s1 m1 e1 ?e) * pow2 ?e"
    and "valof (Fin32 s2 m2 e2) = of_int (scaled s2 m2 e2 ?e) * pow2 ?e"
    by (rule valof_scaled, simp)+
  then show ?thesis by simp
qed

lemma pow2_abs [simp]: "\<bar>pow2 e\<bar> = pow2 e"
  by (simp add: abs_of_pos)

lemma valof_fabs: "is_finite x \<Longrightarrow> valof (fabs x) = \<bar>valof x\<bar>"
  by (cases x) (simp_all add: sgn_of_def abs_mult)


section \<open>Evaluation\<close>

text \<open>The rules that compute the arithmetic on numerals, the value of each literal of the
  source, and the six conversion objects the specializations construct.\<close>

lemmas f32_eval =
  f32_lit_def round_f32_def round_at_def pack_def round_scaled_def round_half_even_def
  nearest_even_def floor_log2_def floor_log2_near_def bit_length.simps scaled_def fsub_def
  round_sum_def

lemma EPSILON_eq: "EPSILON = Fin32 False 14411519 (- 57)"
  by (simp add: EPSILON_def f32_eval)

lemma conversion_gramm_lb:
  "metric_conversion_type gramm lb =
     Inr \<lparr>m_factor = Fin32 False 14863303 (- 15), m_divider = Fin32 False 9468790 (- 32),
          m_offset = Fin32 False 0 (- 149)\<rparr>"
  by (simp add: linear_ctor_def EPSILON_eq f32_eval)

lemma conversion_gramm_pood:
  "metric_conversion_type gramm pood =
     Inr \<lparr>m_factor = Fin32 False 16773837 (- 10), m_divider = Fin32 False 8390298 (- 37),
          m_offset = Fin32 False 0 (- 149)\<rparr>"
  by (simp add: linear_ctor_def EPSILON_eq f32_eval)

lemma conversion_meter_mile:
  "metric_conversion_type meter mile =
     Inr \<lparr>m_factor = Fin32 False 13183713 (- 13), m_divider = Fin32 False 10675103 (- 34),
          m_offset = Fin32 False 0 (- 149)\<rparr>"
  by (simp add: linear_ctor_def EPSILON_eq f32_eval)

lemma conversion_meter_verst:
  "metric_conversion_type meter verst =
     Inr \<lparr>m_factor = Fin32 False 8739226 (- 13), m_divider = Fin32 False 16104114 (- 34),
          m_offset = Fin32 False 0 (- 149)\<rparr>"
  by (simp add: linear_ctor_def EPSILON_eq f32_eval)

lemma conversion_celsius_fahrenheit:
  "metric_conversion_type celsius fahrenheit =
     Inr \<lparr>m_factor = Fin32 False 15099494 (- 23), m_divider = Fin32 False 9320676 (- 24),
          m_offset = Fin32 False 8388608 (- 18)\<rparr>"
  by (simp add: linear_ctor_def EPSILON_eq f32_eval)

lemma conversion_celsius_kelvin:
  "metric_conversion_type celsius kelvin =
     Inr \<lparr>m_factor = Fin32 False 8388608 (- 23), m_divider = Fin32 False 8388608 (- 23),
          m_offset = Fin32 False 8950579 (- 15)\<rparr>"
  by (simp add: linear_ctor_def EPSILON_eq f32_eval)

lemmas conversions =
  conversion_gramm_lb conversion_gramm_pood conversion_meter_mile conversion_meter_verst
  conversion_celsius_fahrenheit conversion_celsius_kelvin

text \<open>The chain of the converter, head first: the actor added last is asked first.\<close>

lemma converter_chain:
  "converter =
    [minor_metrics_converter celsius kelvin kelvin,
     minor_metrics_converter celsius kelvin fahrenheit,
     minor_metrics_converter celsius fahrenheit kelvin,
     minor_metrics_converter celsius fahrenheit fahrenheit,
     primary_metrics_converter celsius kelvin False,
     primary_metrics_converter celsius fahrenheit False,
     primary_metrics_converter celsius kelvin True,
     primary_metrics_converter celsius fahrenheit True,
     minor_metrics_converter meter verst verst,
     minor_metrics_converter meter verst mile,
     minor_metrics_converter meter mile verst,
     minor_metrics_converter meter mile mile,
     primary_metrics_converter meter verst False,
     primary_metrics_converter meter mile False,
     primary_metrics_converter meter verst True,
     primary_metrics_converter meter mile True,
     minor_metrics_converter gramm pood pood,
     minor_metrics_converter gramm pood lb,
     minor_metrics_converter gramm lb pood,
     minor_metrics_converter gramm lb lb,
     primary_metrics_converter gramm pood False,
     primary_metrics_converter gramm lb False,
     primary_metrics_converter gramm pood True,
     primary_metrics_converter gramm lb True]"
  by (simp add: converter_def weight_metrics_def distance_metrics_def temperature_metrics_def)

lemmas process_eval =
  process_def converter_chain is_reponsible_def converter_factory_converter_def
  conversions linear_forward_def linear_backward_def


section \<open>Conversions at given values\<close>

text \<open>
  C1 (the code departs from the claim). The claim has \<open>process("c", "k", 0)\<close> return
  273.15. The entry from \<open>"c"\<close> to \<open>"k"\<close> calls \<open>backward\<close> of the (celsius, kelvin)
  object, which subtracts the offset: the result is the negation of the float
  \<open>273.15f\<close>, that is -273.149993896484375.
\<close>

theorem celsius_to_kelvin_zero:
  "process ''c'' ''k'' (f32_lit 0 1) = Inr (Some (fneg (f32_lit 27315 100)))"
  by (simp add: process_eval f32_eval del: metric_conversion_type.simps)

lemma celsius_to_kelvin_zero_value:
  "valof (fneg (f32_lit 27315 100)) = - (8950579 / 32768)"
  by (simp add: f32_eval pow2_def sgn_of_def)

text \<open>
  C2 (the code departs from the claim). The claim has \<open>process("f", "k", 32)\<close> near 273.15
  and \<open>process("k", "f", 273.15)\<close> near 32. The composed entries give -151.75 and
  796.8199462890625: the entry from the second minor to the first applies \<open>backward\<close> of
  the first minor and then \<open>forward\<close> of the second.
\<close>

theorem fahrenheit_kelvin_values:
  "process ''f'' ''k'' (f32_lit 32 1) = Inr (Some (Fin32 True 9945088 (- 16))) \<and>
   valof (Fin32 True 9945088 (- 16)) = - (607 / 4) \<and>
   process ''k'' ''f'' (f32_lit 27315 100) = Inr (Some (Fin32 False 13055098 (- 14))) \<and>
   valof (Fin32 False 13055098 (- 14)) = 6527549 / 8192"
  by (simp add: process_eval f32_eval pow2_def sgn_of_def del: metric_conversion_type.simps)

text \<open>
  C3 (the code departs from the claim). The claim has \<open>process(U, U, v)\<close> return \<open>v\<close> for
  every unit of the catalog. For the three primaries \<open>"g"\<close>, \<open>"m"\<close> and \<open>"c"\<close> the chain
  holds no entry from the unit to itself, and the answer is \<^verbatim>\<open>std::nullopt\<close>.
\<close>

theorem primary_to_itself_is_absent:
  "process ''g'' ''g'' v = Inr None \<and> process ''m'' ''m'' v = Inr None \<and>
   process ''c'' ''c'' v = Inr None"
  by (simp add: process_def converter_chain is_reponsible_def)

text \<open>For the six minors the entry of a minor with itself returns the value unchanged.\<close>

lemma minor_to_itself:
  "m \<in> {lb, pood, mile, verst, fahrenheit, kelvin} \<Longrightarrow>
     process (signature m) (signature m) v = Inr (Some v)"
  by (auto simp add: process_def converter_chain is_reponsible_def)

text \<open>
  C4. \<open>process("c", "f", 0)\<close> is exactly 32 and \<open>process("f", "c", 32)\<close> is exactly 0:
  from celsius the entry computes \<open>9/5 * v + 32\<close>, from fahrenheit
  \<open>(v - 32) * (1 / (9/5))\<close>, each operation rounded to single precision.
\<close>

theorem celsius_fahrenheit_swap:
  "process ''c'' ''f'' v =
     Inr (Some (fadd (fmul (fdiv (f32_lit 9 1) (f32_lit 5 1)) v) (f32_lit 32 1))) \<and>
   process ''f'' ''c'' v =
     Inr (Some (fmul (fsub v (f32_lit 32 1))
       (fdiv (f32_lit 1 1) (fdiv (f32_lit 9 1) (f32_lit 5 1))))) \<and>
   process ''c'' ''f'' (f32_lit 0 1) = Inr (Some (f32_lit 32 1)) \<and>
   process ''f'' ''c'' (f32_lit 32 1) = Inr (Some (f32_lit 0 1))"
  by (simp add: process_eval f32_eval del: metric_conversion_type.simps)

text \<open>
  C6. \<open>process("g", "lb", v)\<close> multiplies \<open>v - 0\<close> by the single-precision reciprocal of
  \<open>453.592f\<close>; at 1000 the result is the float 9246865 / 2^22, within 10^-5 of 2.20462
  and within half a unit in its last place of 1000 / 453.592.
\<close>

theorem gramm_to_lb_1000:
  "process ''g'' ''lb'' v =
     Inr (Some (fmul (fsub v (f32_lit 0 1)) (fdiv (f32_lit 1 1) (f32_lit 453592 1000)))) \<and>
   process ''g'' ''lb'' (f32_lit 1000 1) = Inr (Some (Fin32 False 9246865 (- 22))) \<and>
   \<bar>valof (Fin32 False 9246865 (- 22)) - 220462 / 100000\<bar> < 1 / 10 ^ 5 \<and>
   \<bar>valof (Fin32 False 9246865 (- 22)) - 1000 / (453592 / 1000)\<bar> < 1 / 2 ^ 23"
  by (simp add: process_eval f32_eval pow2_def sgn_of_def del: metric_conversion_type.simps)


section \<open>Requests without an entry, and the constructor's check\<close>

lemma responsible_process_no_match:
  "(from, to) \<notin> set (map (\<lambda>c. (from_signature c, to_signature c)) chain) \<Longrightarrow>
     responsible_process chain from to v = Inr None"
  by (induction chain) (auto simp add: is_reponsible_def)

text \<open>
  C5. A pair of signatures that is the (from, to) pair of no entry of the chain gets the
  answer \<^verbatim>\<open>std::nullopt\<close>: neither a number nor an exception. The pairs
  \<open>("g", "m")\<close> and \<open>("xx", "g")\<close> are such pairs.
\<close>

theorem no_match_is_absent:
  "(from, to) \<notin> set (map (\<lambda>c. (from_signature c, to_signature c)) converter) \<Longrightarrow>
     process from to v = Inr None"
  unfolding process_def by (rule responsible_process_no_match)

theorem no_match_is_absent_witness:
  "process ''g'' ''m'' (f32_lit 5 1) = Inr None \<and> process ''xx'' ''g'' (f32_lit 5 1) = Inr None"
  using no_match_is_absent [of "''g''" "''m''" "f32_lit 5 1"]
    no_match_is_absent [of "''xx''" "''g''" "f32_lit 5 1"]
  by (simp add: converter_chain)

text \<open>
  C7. The constructor of \<^verbatim>\<open>linear\<close> throws for every finite factor of magnitude
  below 10^-10, as for 0 and for \<^verbatim>\<open>1e-12f\<close>, and it throws for none of the six
  declared conversions.
\<close>

theorem factor_too_small:
  "(is_finite factor \<and> \<bar>valof factor\<bar> < 1 / 10 ^ 10 \<longrightarrow>
      linear_ctor factor offset = Inl Factor_too_small) \<and>
   \<not> isl (metric_conversion_type gramm lb) \<and>
   \<not> isl (metric_conversion_type gramm pood) \<and>
   \<not> isl (metric_conversion_type meter mile) \<and>
   \<not> isl (metric_conversion_type meter verst) \<and>
   \<not> isl (metric_conversion_type celsius fahrenheit) \<and>
   \<not> isl (metric_conversion_type celsius kelvin)"
proof -
  have "linear_ctor factor offset = Inl Factor_too_small"
    if fin: "is_finite factor" and small: "\<bar>valof factor\<bar> < 1 / 10 ^ 10"
  proof -
    obtain s m e where f: "factor = Fin32 s m e"
      using fin by (cases factor) simp_all
    have "(1::rat) / 10 ^ 10 < valof EPSILON"
      by (simp add: EPSILON_eq pow2_def sgn_of_def)
    with small valof_fabs [OF fin] have "valof (fabs factor) < valof EPSILON"
      by simp
    then have "flt (fabs factor) EPSILON"
      unfolding f EPSILON_eq fabs.simps by (simp only: flt_finite)
    then show ?thesis by (simp add: linear_ctor_def)
  qed
  then show ?thesis
    by (simp add: conversions del: metric_conversion_type.simps)
qed

theorem factor_too_small_witness:
  "linear_ctor (f32_lit 0 1) (f32_lit 0 1) = Inl Factor_too_small \<and>
   linear_ctor (f32_lit 1 (10 ^ 12)) (f32_lit 0 1) = Inl Factor_too_small"
  using factor_too_small [of "f32_lit 0 1" "f32_lit 0 1"]
    factor_too_small [of "f32_lit 1 (10 ^ 12)" "f32_lit 0 1"]
  by (simp add: f32_eval pow2_def sgn_of_def del: metric_conversion_type.simps)


section \<open>The error of one rounding\<close>

lemma pow2_diff: "pow2 (a - b) = pow2 a / pow2 b"
  by (simp add: pow2_powi power_int_diff)

lemma pow2_nonneg [simp]: "0 \<le> pow2 e"
  by (simp add: less_imp_le)

lemma pow2_one: "pow2 1 = 2"
  by (simp add: pow2_def)

lemma sgn_of_abs [simp]: "\<bar>sgn_of s\<bar> = 1"
  by (simp add: sgn_of_def)

lemma bit_length_nonneg: "0 \<le> bit_length n"
  by (induction n rule: bit_length.induct) (simp add: bit_length.simps)

lemma bit_length_bounds:
  "0 < n \<Longrightarrow> 2 ^ nat (bit_length n - 1) \<le> n \<and> n < 2 ^ nat (bit_length n)"
proof (induction n rule: bit_length.induct)
  case (1 n)
  show ?case
  proof (cases "n div 2 = 0")
    case True
    with "1.prems" have "n = 1" by auto
    then show ?thesis by (simp add: bit_length.simps)
  next
    case False
    let ?b = "bit_length (n div 2)"
    from False "1.IH" "1.prems"
    have lo: "2 ^ nat (?b - 1) \<le> n div 2" and hi: "n div 2 < 2 ^ nat ?b"
      by auto
    have b1: "1 \<le> ?b"
      using False bit_length_nonneg [of "n div 2 div 2"]
      by (subst bit_length.simps) simp
    have bl: "bit_length n = ?b + 1"
      using "1.prems" by (subst bit_length.simps) simp
    have p: "(2::nat) ^ nat ?b = 2 * 2 ^ nat (?b - 1)"
      using b1 by (metis Suc_nat_eq_nat_zadd1 add.commute diff_add_cancel diff_ge_0_iff_ge power_Suc)
    have q: "(2::nat) ^ nat (?b + 1) = 2 * 2 ^ nat ?b"
      using b1 by (simp add: nat_add_distrib)
    from lo hi show ?thesis
      unfolding bl using p q by simp linarith
  qed
qed

lemma bit_length_pow2:
  assumes "0 < n"
  shows "pow2 (bit_length n - 1) \<le> of_nat n" and "of_nat n < pow2 (bit_length n)"
proof -
  from bit_length_bounds [OF assms]
  have lo: "2 ^ nat (bit_length n - 1) \<le> n" and hi: "n < 2 ^ nat (bit_length n)" by auto
  have b1: "1 \<le> bit_length n"
    using assms bit_length_nonneg [of "n div 2"] by (subst bit_length.simps) simp
  have "pow2 (bit_length n - 1) = of_nat (2 ^ nat (bit_length n - 1))"
    using b1 by (simp add: pow2_nat)
  also have "\<dots> \<le> of_nat n" using lo by (simp only: of_nat_le_iff)
  finally show "pow2 (bit_length n - 1) \<le> of_nat n" .
  have "(of_nat n :: rat) < of_nat (2 ^ nat (bit_length n))"
    using hi by (simp only: of_nat_less_iff)
  also have "\<dots> = pow2 (bit_length n)"
    using b1 by (simp add: pow2_nat)
  finally show "of_nat n < pow2 (bit_length n)" .
qed

lemma floor_log2_lower:
  assumes n: "0 < n" and d: "0 < d"
  shows "pow2 (floor_log2 n d) \<le> of_nat n / of_nat d"
proof -
  let ?k = "bit_length n - bit_length d"
  let ?c = "if 0 \<le> ?k then d * 2 ^ nat ?k \<le> n else d \<le> n * 2 ^ nat (- ?k)"
  have dpos: "(0::rat) < of_nat d" using d by simp
  show ?thesis
  proof (cases ?c)
    case True
    then have fl: "floor_log2 n d = ?k"
      by (simp add: floor_log2_def floor_log2_near_def)
    have "pow2 ?k * of_nat d \<le> of_nat n"
    proof (cases "0 \<le> ?k")
      case k: True
      with True have "d * 2 ^ nat ?k \<le> n" by simp
      then have "(of_nat (d * 2 ^ nat ?k) :: rat) \<le> of_nat n" by (simp only: of_nat_le_iff)
      then show ?thesis using k by (simp add: pow2_nat mult.commute)
    next
      case k: False
      with True have "d \<le> n * 2 ^ nat (- ?k)" by simp
      then have "(of_nat d :: rat) \<le> of_nat (n * 2 ^ nat (- ?k))" by (simp only: of_nat_le_iff)
      then show ?thesis using k by (simp add: pow2_def field_simps)
    qed
    then show ?thesis unfolding fl using dpos by (simp add: field_simps)
  next
    case False
    then have fl: "floor_log2 n d = ?k - 1"
      by (simp add: floor_log2_def floor_log2_near_def)
    have "pow2 (?k - 1) = pow2 (bit_length n - 1) / pow2 (bit_length d)"
      by (simp add: pow2_diff [symmetric] algebra_simps)
    also have "\<dots> \<le> of_nat n / of_nat d"
      using bit_length_pow2(1) [OF n] bit_length_pow2(2) [OF d] dpos
      by (intro frac_le) (simp_all add: less_imp_le)
    finally show ?thesis unfolding fl .
  qed
qed

lemma round_half_even_error:
  assumes d: "0 < d"
  shows "\<bar>of_nat (round_half_even n d) - (of_nat n :: rat) / of_nat d\<bar> \<le> 1 / 2"
proof -
  let ?q = "n div d" and ?r = "n mod d"
  have dpos: "(0::rat) < of_nat d" using d by simp
  have "(of_nat n :: rat) = of_nat (?q * d + ?r)" by simp
  then have n: "(of_nat n :: rat) = of_nat ?q * of_nat d + of_nat ?r"
    by (simp only: of_nat_add of_nat_mult)
  have frac: "(of_nat n :: rat) / of_nat d = of_nat ?q + of_nat ?r / of_nat d"
    using dpos by (subst n) (simp add: field_simps)
  have r0: "(0::rat) \<le> of_nat ?r / of_nat d" by simp
  have r1: "(of_nat ?r :: rat) / of_nat d < 1"
    using d dpos by simp
  consider (lo) "2 * ?r < d" | (hi) "d < 2 * ?r" | (tie) "2 * ?r = d"
    by linarith
  then show ?thesis
  proof cases
    case lo
    then have "(of_nat (2 * ?r) :: rat) < of_nat d" by (simp only: of_nat_less_iff)
    then have "(of_nat ?r :: rat) / of_nat d < 1 / 2"
      using dpos by (simp add: field_simps)
    with lo r0 show ?thesis
      by (simp add: round_half_even_def nearest_even_def frac)
  next
    case hi
    then have "(of_nat d :: rat) < of_nat (2 * ?r)" by (simp only: of_nat_less_iff)
    then have "1 / 2 < (of_nat ?r :: rat) / of_nat d"
      using dpos by (simp add: field_simps)
    with hi r1 show ?thesis
      by (simp add: round_half_even_def nearest_even_def frac)
  next
    case tie
    then have "(of_nat (2 * ?r) :: rat) = of_nat d" by simp
    then have "(of_nat ?r :: rat) / of_nat d = 1 / 2"
      using dpos by (simp add: field_simps)
    with tie show ?thesis
      by (simp add: round_half_even_def nearest_even_def frac)
  qed
qed

lemma round_scaled_error:
  assumes d: "0 < d"
  shows "\<bar>of_nat (round_scaled n d sh) - of_nat n / of_nat d * pow2 sh\<bar> \<le> 1 / 2"
proof (cases "0 \<le> sh")
  case True
  have "(of_nat (n * 2 ^ nat sh) :: rat) / of_nat d = of_nat n / of_nat d * pow2 sh"
    using True by (simp add: pow2_nat)
  with round_half_even_error [OF d, of "n * 2 ^ nat sh"] True show ?thesis
    by (simp only: round_scaled_def if_True)
next
  case False
  have "0 < d * 2 ^ nat (- sh)" using d by simp
  moreover have "(of_nat n :: rat) / of_nat (d * 2 ^ nat (- sh)) = of_nat n / of_nat d * pow2 sh"
    using False by (simp add: pow2_def)
  ultimately show ?thesis
    using round_half_even_error [of "d * 2 ^ nat (- sh)" n] False
    by (simp only: round_scaled_def if_False)
qed

lemma valof_pack:
  "is_finite (pack s m x) \<Longrightarrow> valof (pack s m x) = sgn_of s * of_nat m * pow2 x"
  by (auto simp add: pack_def pow2_add pow2_one split: if_splits)

lemma round_at_error:
  assumes d: "0 < d" and fin: "is_finite (round_at s n d e x)"
  shows "\<bar>valof (round_at s n d e x) - sgn_of s * (of_nat n / of_nat d * pow2 e)\<bar> \<le> pow2 x / 2"
proof -
  let ?m = "of_nat (round_scaled n d (e - x)) :: rat"
  let ?q = "of_nat n / of_nat d :: rat"
  have v: "valof (round_at s n d e x) = sgn_of s * ?m * pow2 x"
    using fin unfolding round_at_def by (rule valof_pack)
  have e: "pow2 e = pow2 (e - x) * pow2 x"
    by (simp add: pow2_add [symmetric])
  have "valof (round_at s n d e x) - sgn_of s * (?q * pow2 e)
      = sgn_of s * ((?m - ?q * pow2 (e - x)) * pow2 x)"
    unfolding v e by (simp add: algebra_simps)
  then have "\<bar>valof (round_at s n d e x) - sgn_of s * (?q * pow2 e)\<bar>
      = \<bar>?m - ?q * pow2 (e - x)\<bar> * pow2 x"
    by (simp add: abs_mult)
  also have "\<dots> \<le> 1 / 2 * pow2 x"
    using round_scaled_error [OF d, of n "e - x"]
    by (intro mult_right_mono) (simp_all add: less_imp_le)
  finally show ?thesis by simp
qed

lemma round_f32_error:
  assumes d: "0 < d" and fin: "is_finite (round_f32 s n d e)"
  shows "\<bar>valof (round_f32 s n d e) - sgn_of s * (of_nat n / of_nat d * pow2 e)\<bar>
           \<le> unit_roundoff * (of_nat n / of_nat d * pow2 e) + underflow_unit"
proof (cases "n = 0")
  case True
  then show ?thesis
    by (simp add: round_f32_def unit_roundoff_def underflow_unit_def)
next
  case False
  then have n: "0 < n" by simp
  let ?q = "of_nat n / of_nat d * pow2 e :: rat"
  let ?f = "floor_log2 n d + e"
  let ?x = "max ?f (- 126) - 23"
  have r: "round_f32 s n d e = round_at s n d e ?x"
    using False by (simp add: round_f32_def)
  have q0: "0 \<le> ?q" by (simp add: less_imp_le)
  have "pow2 ?x / 2 \<le> unit_roundoff * ?q + underflow_unit"
  proof (cases "- 126 \<le> ?f")
    case True
    then have "?x = (floor_log2 n d + e) + (- 24) + 1" by simp
    then have "pow2 ?x / 2 = pow2 (floor_log2 n d) * pow2 e * unit_roundoff"
      by (simp only: pow2_add) (simp add: pow2_def unit_roundoff_def)
    also have "\<dots> \<le> (of_nat n / of_nat d) * pow2 e * unit_roundoff"
      using floor_log2_lower [OF n d]
      by (intro mult_right_mono) (simp_all add: unit_roundoff_def less_imp_le)
    finally show ?thesis by (simp add: underflow_unit_def mult.commute)
  next
    case False
    then have "?x = - 149" by simp
    then have "pow2 ?x / 2 = underflow_unit"
      by (simp add: pow2_def underflow_unit_def)
    moreover have "0 \<le> unit_roundoff * ?q"
      using q0 by (intro mult_nonneg_nonneg) (simp_all add: unit_roundoff_def)
    ultimately show ?thesis by linarith
  qed
  with round_at_error [OF d, of s n e ?x] fin show ?thesis
    unfolding r by linarith
qed

lemma valof_fneg [simp]: "valof (fneg x) = - valof x"
  by (cases x) (simp_all add: sgn_of_def)

lemma is_finite_fneg [simp]: "is_finite (fneg x) = is_finite x"
  by (cases x) simp_all

lemma fmul_error:
  assumes "is_finite (fmul a b)"
  shows "is_finite a" and "is_finite b"
    and "\<bar>valof (fmul a b) - valof a * valof b\<bar>
           \<le> unit_roundoff * \<bar>valof a * valof b\<bar> + underflow_unit"
proof -
  from assms obtain s1 m1 e1 s2 m2 e2 where a: "a = Fin32 s1 m1 e1" and b: "b = Fin32 s2 m2 e2"
    by (cases a; cases b) (simp_all split: if_splits)
  show "is_finite a" and "is_finite b" by (simp_all add: a b)
  define Q where "Q = (of_nat (m1 * m2) :: rat) / of_nat 1 * pow2 (e1 + e2)"
  have r: "fmul a b = round_f32 (s1 \<noteq> s2) (m1 * m2) 1 (e1 + e2)"
    by (simp add: a b)
  have fin: "is_finite (round_f32 (s1 \<noteq> s2) (m1 * m2) 1 (e1 + e2))"
    using assms unfolding r .
  have ex: "valof a * valof b = sgn_of (s1 \<noteq> s2) * Q"
    by (cases s1; cases s2) (simp_all add: a b Q_def sgn_of_def pow2_add)
  have ab: "\<bar>valof a * valof b\<bar> = Q"
    by (simp add: a b Q_def abs_mult pow2_add)
  have "0 < (1::nat)" by simp
  from round_f32_error [OF this fin]
  have "\<bar>valof (round_f32 (s1 \<noteq> s2) (m1 * m2) 1 (e1 + e2)) - sgn_of (s1 \<noteq> s2) * Q\<bar>
      \<le> unit_roundoff * Q + underflow_unit"
    unfolding Q_def .
  then show "\<bar>valof (fmul a b) - valof a * valof b\<bar>
           \<le> unit_roundoff * \<bar>valof a * valof b\<bar> + underflow_unit"
    unfolding ab unfolding ex r .
qed

lemma valof_sum_scaled:
  "valof (Fin32 s1 m1 e1) + valof (Fin32 s2 m2 e2)
     = of_int (scaled s1 m1 e1 (min e1 e2) + scaled s2 m2 e2 (min e1 e2)) * pow2 (min e1 e2)"
proof -
  have "valof (Fin32 s1 m1 e1) = of_int (scaled s1 m1 e1 (min e1 e2)) * pow2 (min e1 e2)"
    and "valof (Fin32 s2 m2 e2) = of_int (scaled s2 m2 e2 (min e1 e2)) * pow2 (min e1 e2)"
    by (rule valof_scaled, simp)+
  then show ?thesis by (simp only: of_int_add distrib_right)
qed

lemma fadd_error:
  assumes "is_finite (fadd a b)"
  shows "is_finite a" and "is_finite b"
    and "\<bar>valof (fadd a b) - (valof a + valof b)\<bar>
           \<le> unit_roundoff * \<bar>valof a + valof b\<bar> + underflow_unit"
proof -
  from assms obtain s1 m1 e1 s2 m2 e2 where a: "a = Fin32 s1 m1 e1" and b: "b = Fin32 s2 m2 e2"
    by (cases a; cases b) (simp_all split: if_splits)
  show "is_finite a" and "is_finite b" by (simp_all add: a b)
  define e where "e = min e1 e2"
  define t where "t = scaled s1 m1 e1 e + scaled s2 m2 e2 e"
  have sum: "valof a + valof b = of_int t * pow2 e"
    unfolding a b t_def e_def by (rule valof_sum_scaled)
  have f: "fadd a b = round_sum (s1 \<and> s2) t e"
    by (simp add: a b t_def e_def)
  show "\<bar>valof (fadd a b) - (valof a + valof b)\<bar>
           \<le> unit_roundoff * \<bar>valof a + valof b\<bar> + underflow_unit"
  proof (cases "t = 0")
    case True
    then show ?thesis
      unfolding sum f by (simp add: round_sum_def unit_roundoff_def underflow_unit_def)
  next
    case False
    have r: "fadd a b = round_f32 (t < 0) (nat \<bar>t\<bar>) 1 e"
      using False by (simp add: f round_sum_def)
    have fin: "is_finite (round_f32 (t < 0) (nat \<bar>t\<bar>) 1 e)"
      using assms unfolding r .
    define Q where "Q = (of_nat (nat \<bar>t\<bar>) :: rat) / of_nat 1 * pow2 e"
    have ex: "of_int t * pow2 e = sgn_of (t < 0) * Q"
      by (simp add: Q_def sgn_of_def)
    have ab: "\<bar>of_int t * pow2 e :: rat\<bar> = Q"
      by (simp add: Q_def abs_mult)
    have "0 < (1::nat)" by simp
    from round_f32_error [OF this fin]
    have "\<bar>valof (round_f32 (t < 0) (nat \<bar>t\<bar>) 1 e) - sgn_of (t < 0) * Q\<bar>
        \<le> unit_roundoff * Q + underflow_unit"
      unfolding Q_def .
    then show ?thesis
      unfolding sum r unfolding ab unfolding ex .
  qed
qed


section \<open>The operations stay in the format\<close>

text \<open>Rounding yields a value of the format, so do the operations, and so does
  \<open>process\<close> on a value of the format.\<close>

lemma pow2_mono: "a \<le> b \<Longrightarrow> pow2 a \<le> pow2 b"
  by (simp add: pow2_powi power_int_increasing)

lemma floor_log2_upper:
  assumes n: "0 < n" and d: "0 < d"
  shows "of_nat n / of_nat d < pow2 (floor_log2 n d + 1)"
proof -
  let ?k = "bit_length n - bit_length d"
  let ?c = "if 0 \<le> ?k then d * 2 ^ nat ?k \<le> n else d \<le> n * 2 ^ nat (- ?k)"
  have dpos: "(0::rat) < of_nat d" using d by simp
  show ?thesis
  proof (cases ?c)
    case True
    then have fl: "floor_log2 n d = ?k"
      by (simp add: floor_log2_def floor_log2_near_def)
    have "0 < pow2 (bit_length d - 1)" by simp
    have "of_nat n / of_nat d < pow2 (bit_length n) / pow2 (bit_length d - 1)"
      using bit_length_pow2(2) [OF n] bit_length_pow2(1) [OF d] dpos
      by (intro frac_less) (simp_all add: less_imp_le)
    also have "\<dots> = pow2 (?k + 1)"
      by (simp add: pow2_diff [symmetric] algebra_simps)
    finally show ?thesis unfolding fl .
  next
    case False
    then have fl: "floor_log2 n d = ?k - 1"
      by (simp add: floor_log2_def floor_log2_near_def)
    have "of_nat n < pow2 ?k * of_nat d"
    proof (cases "0 \<le> ?k")
      case k: True
      with False have "n < d * 2 ^ nat ?k" by simp
      then have "(of_nat n :: rat) < of_nat (d * 2 ^ nat ?k)" by (simp only: of_nat_less_iff)
      then show ?thesis using k by (simp add: pow2_nat mult.commute)
    next
      case k: False
      with False have "n * 2 ^ nat (- ?k) < d" by simp
      then have "(of_nat (n * 2 ^ nat (- ?k)) :: rat) < of_nat d" by (simp only: of_nat_less_iff)
      then show ?thesis using k by (simp add: pow2_def field_simps)
    qed
    then show ?thesis unfolding fl using dpos by (simp add: field_simps)
  qed
qed

lemma round_scaled_le:
  assumes d: "0 < d" and y: "of_nat n / of_nat d * pow2 sh \<le> of_nat K"
  shows "round_scaled n d sh \<le> K"
proof -
  from round_scaled_error [OF d, of n sh] y
  have "(of_nat (round_scaled n d sh) :: rat) < of_nat K + 1" by linarith
  then have "(of_nat (round_scaled n d sh) :: rat) < of_nat (K + 1)" by simp
  then have "round_scaled n d sh < K + 1" by (simp only: of_nat_less_iff)
  then show ?thesis by simp
qed

lemma round_scaled_ge:
  assumes d: "0 < d" and y: "of_nat K \<le> of_nat n / of_nat d * pow2 sh"
  shows "K \<le> round_scaled n d sh"
proof -
  from round_scaled_error [OF d, of n sh] y
  have "(of_nat K :: rat) < of_nat (round_scaled n d sh) + 1" by linarith
  then have "(of_nat K :: rat) < of_nat (round_scaled n d sh + 1)" by simp
  then have "K < round_scaled n d sh + 1" by (simp only: of_nat_less_iff)
  then show ?thesis by simp
qed

lemma is_f32_pack:
  assumes "m \<le> 2 ^ 24" and "- 149 \<le> x" and "2 ^ 23 \<le> m \<or> x = - 149"
  shows "is_f32 (pack s m x)"
  using assms by (auto simp add: pack_def)

lemma is_f32_round_f32:
  assumes d: "0 < d"
  shows "is_f32 (round_f32 s n d e)"
proof (cases "n = 0")
  case True
  then show ?thesis by (simp add: round_f32_def)
next
  case False
  then have n: "0 < n" by simp
  let ?f = "floor_log2 n d + e"
  let ?x = "max ?f (- 126) - 23"
  let ?y = "of_nat n / of_nat d * pow2 (e - ?x) :: rat"
  have r: "round_f32 s n d e = pack s (round_scaled n d (e - ?x)) ?x"
    using False by (simp add: round_f32_def round_at_def)
  have up: "?y \<le> of_nat (2 ^ 24)"
  proof -
    have "?y \<le> pow2 (floor_log2 n d + 1) * pow2 (e - ?x)"
      using floor_log2_upper [OF n d] by (intro mult_right_mono) (simp_all add: less_imp_le)
    also have "\<dots> = pow2 (?f + 1 - ?x)"
      by (simp add: pow2_add [symmetric] algebra_simps)
    also have "\<dots> \<le> pow2 24"
      by (rule pow2_mono) simp
    finally show ?thesis by (simp add: pow2_def)
  qed
  have lo: "of_nat (2 ^ 23) \<le> ?y" if "- 126 \<le> ?f"
  proof -
    from that have x: "e - ?x = 23 - floor_log2 n d" by simp
    have "pow2 23 = pow2 (floor_log2 n d) * pow2 (e - ?x)"
      unfolding x by (simp add: pow2_add [symmetric])
    also have "\<dots> \<le> ?y"
      using floor_log2_lower [OF n d] by (intro mult_right_mono) simp_all
    finally show ?thesis by (simp add: pow2_def)
  qed
  have "round_scaled n d (e - ?x) \<le> 2 ^ 24"
    using d up by (rule round_scaled_le)
  moreover have "- 149 \<le> ?x" by simp
  moreover have "2 ^ 23 \<le> round_scaled n d (e - ?x) \<or> ?x = - 149"
  proof (cases "- 126 \<le> ?f")
    case True
    then show ?thesis using round_scaled_ge [OF d lo] by simp
  next
    case False
    then show ?thesis by simp
  qed
  ultimately show ?thesis unfolding r by (rule is_f32_pack)
qed

lemma is_f32_fadd: "is_f32 (fadd a b)"
  by (cases a; cases b) (simp_all add: round_sum_def is_f32_round_f32)

lemma is_f32_fmul: "is_f32 (fmul a b)"
  by (cases a; cases b) (simp_all add: is_f32_round_f32)

lemma is_f32_fdiv: "is_f32 (fdiv a b)"
  by (cases a; cases b) (simp_all add: is_f32_round_f32)

lemma is_f32_fneg: "is_f32 (fneg a) = is_f32 a"
  by (cases a) simp_all

lemma is_f32_f32_lit: "0 < d \<Longrightarrow> is_f32 (f32_lit n d)"
  by (simp add: f32_lit_def is_f32_round_f32)


lemma is_f32_forward: "is_f32 (forward p m l v)"
  by (induction p m l v rule: forward.induct)
    (simp_all add: linear_forward_def linear_backward_def is_f32_fadd is_f32_fmul)

lemma is_f32_backward: "is_f32 (backward p m l v)"
  by (induction p m l v rule: backward.induct)
    (simp_all add: linear_forward_def linear_backward_def is_f32_fadd is_f32_fmul)

lemma is_f32_convert:
  "convert c v = Inr r \<Longrightarrow> is_f32 v \<Longrightarrow> is_f32 r"
  by (cases c) (auto simp add: is_f32_forward is_f32_backward split: if_splits sum.splits)

lemma is_f32_responsible_process:
  "responsible_process chain from to v = Inr (Some r) \<Longrightarrow> is_f32 v \<Longrightarrow> is_f32 r"
  by (induction chain) (auto simp add: is_f32_convert split: if_splits sum.splits)

lemma is_f32_process:
  "process from to v = Inr (Some r) \<Longrightarrow> is_f32 v \<Longrightarrow> is_f32 r"
  unfolding process_def by (rule is_f32_responsible_process)


section \<open>Bounds along a computation\<close>

lemma tracks_start: "tracks V V (1, 0, 0, 0)"
  by simp

lemma grow_nonneg: "0 \<le> a \<Longrightarrow> 0 \<le> grow c a"
  by (simp add: grow_def unit_roundoff_def)

lemma tracks_shift:
  assumes t: "tracks x V B"
    and y: "\<bar>y - (x + k)\<bar> \<le> unit_roundoff * \<bar>x + k\<bar> + underflow_unit"
  shows "tracks y V (shift k B)"
proof -
  obtain c d a b where B: "B = (c, d, a, b)" by (cases B)
  from t have a0: "0 \<le> a" and b0: "0 \<le> b" and x: "\<bar>x - (c * V + d)\<bar> \<le> a * \<bar>V\<bar> + b"
    by (simp_all add: B)
  have cv: "\<bar>c * V\<bar> = \<bar>c\<bar> * \<bar>V\<bar>" by (rule abs_mult)
  have "\<bar>x + k\<bar> \<le> \<bar>c\<bar> * \<bar>V\<bar> + \<bar>d + k\<bar> + (a * \<bar>V\<bar> + b)"
    using x cv by linarith
  then have "unit_roundoff * \<bar>x + k\<bar>
      \<le> unit_roundoff * (\<bar>c\<bar> * \<bar>V\<bar> + \<bar>d + k\<bar> + (a * \<bar>V\<bar> + b))"
    by (intro mult_left_mono) (simp_all add: unit_roundoff_def)
  with x y have "\<bar>y - (c * V + (d + k))\<bar>
      \<le> (a * \<bar>V\<bar> + b) + unit_roundoff * (\<bar>c\<bar> * \<bar>V\<bar> + \<bar>d + k\<bar> + (a * \<bar>V\<bar> + b)) + underflow_unit"
    by linarith
  also have "\<dots> = grow c a * \<bar>V\<bar> + (grow (d + k) b + underflow_unit)"
    by (simp add: grow_def algebra_simps)
  finally show ?thesis
    using a0 b0 by (simp add: B grow_nonneg underflow_unit_def)
qed

lemma tracks_scale:
  assumes t: "tracks x V B"
    and y: "\<bar>y - x * k\<bar> \<le> unit_roundoff * \<bar>x * k\<bar> + underflow_unit"
  shows "tracks y V (scale k B)"
proof -
  obtain c d a b where B: "B = (c, d, a, b)" by (cases B)
  from t have a0: "0 \<le> a" and b0: "0 \<le> b" and x: "\<bar>x - (c * V + d)\<bar> \<le> a * \<bar>V\<bar> + b"
    by (simp_all add: B)
  have cv: "\<bar>c * V\<bar> = \<bar>c\<bar> * \<bar>V\<bar>" by (rule abs_mult)
  have "\<bar>x\<bar> \<le> \<bar>c\<bar> * \<bar>V\<bar> + \<bar>d\<bar> + (a * \<bar>V\<bar> + b)"
    using x cv by linarith
  then have "\<bar>x\<bar> * \<bar>k\<bar> \<le> (\<bar>c\<bar> * \<bar>V\<bar> + \<bar>d\<bar> + (a * \<bar>V\<bar> + b)) * \<bar>k\<bar>"
    by (intro mult_right_mono) simp_all
  then have 1: "unit_roundoff * \<bar>x * k\<bar>
      \<le> unit_roundoff * ((\<bar>c\<bar> * \<bar>V\<bar> + \<bar>d\<bar> + (a * \<bar>V\<bar> + b)) * \<bar>k\<bar>)"
    unfolding abs_mult by (intro mult_left_mono) (simp_all add: unit_roundoff_def)
  have "x * k - (c * k * V + d * k) = (x - (c * V + d)) * k"
    by (simp add: algebra_simps)
  then have "\<bar>x * k - (c * k * V + d * k)\<bar> = \<bar>x - (c * V + d)\<bar> * \<bar>k\<bar>"
    by (simp add: abs_mult)
  also have "\<dots> \<le> (a * \<bar>V\<bar> + b) * \<bar>k\<bar>"
    using x by (intro mult_right_mono) simp_all
  finally have 2: "\<bar>x * k - (c * k * V + d * k)\<bar> \<le> (a * \<bar>V\<bar> + b) * \<bar>k\<bar>" .
  from 1 2 y have "\<bar>y - (c * k * V + d * k)\<bar>
      \<le> (a * \<bar>V\<bar> + b) * \<bar>k\<bar>
        + unit_roundoff * ((\<bar>c\<bar> * \<bar>V\<bar> + \<bar>d\<bar> + (a * \<bar>V\<bar> + b)) * \<bar>k\<bar>) + underflow_unit"
    by linarith
  also have "\<dots> = \<bar>k\<bar> * grow c a * \<bar>V\<bar> + (\<bar>k\<bar> * grow d b + underflow_unit)"
    by (simp add: grow_def algebra_simps)
  finally show ?thesis
    using a0 b0 by (simp add: B grow_nonneg underflow_unit_def)
qed

lemma linear_forward_finite:
  assumes "is_finite (linear_forward l v)"
  shows "is_finite v"
proof -
  from assms have "is_finite (fmul (m_factor l) v)"
    unfolding linear_forward_def by (rule fadd_error(1))
  then show ?thesis by (rule fmul_error(2))
qed

lemma linear_backward_finite:
  assumes "is_finite (linear_backward l v)"
  shows "is_finite v"
proof -
  from assms have "is_finite (fadd v (fneg (m_offset l)))"
    unfolding linear_backward_def fsub_def by (rule fmul_error(1))
  then show ?thesis by (rule fadd_error(1))
qed

lemma linear_forward_tracks:
  assumes fin: "is_finite (linear_forward l v)" and t: "tracks (valof v) V B"
  shows "tracks (valof (linear_forward l v)) V (forward_bound l B)"
proof -
  from fin have fin': "is_finite (fadd (fmul (m_factor l) v) (m_offset l))"
    by (simp add: linear_forward_def)
  note s = fadd_error [OF fin']
  note m = fmul_error [OF s(1)]
  from m(3) have "\<bar>valof (fmul (m_factor l) v) - valof v * valof (m_factor l)\<bar>
      \<le> unit_roundoff * \<bar>valof v * valof (m_factor l)\<bar> + underflow_unit"
    by (simp only: mult.commute)
  with t have "tracks (valof (fmul (m_factor l) v)) V (scale (valof (m_factor l)) B)"
    by (rule tracks_scale)
  then show ?thesis
    unfolding linear_forward_def forward_bound_def using s(3) by (rule tracks_shift)
qed

lemma linear_backward_tracks:
  assumes fin: "is_finite (linear_backward l v)" and t: "tracks (valof v) V B"
  shows "tracks (valof (linear_backward l v)) V (backward_bound l B)"
proof -
  from fin have fin': "is_finite (fmul (fadd v (fneg (m_offset l))) (m_divider l))"
    by (simp add: linear_backward_def fsub_def)
  note m = fmul_error [OF fin']
  note s = fadd_error [OF m(1)]
  from s(3) have "\<bar>valof (fadd v (fneg (m_offset l))) - (valof v + - valof (m_offset l))\<bar>
      \<le> unit_roundoff * \<bar>valof v + - valof (m_offset l)\<bar> + underflow_unit"
    by (simp only: valof_fneg)
  with t have "tracks (valof (fadd v (fneg (m_offset l)))) V (shift (- valof (m_offset l)) B)"
    by (rule tracks_shift)
  then show ?thesis
    unfolding linear_backward_def backward_bound_def fsub_def using m(3) by (rule tracks_scale)
qed

lemma tracks_close:
  assumes t: "tracks r V B" and w: "within_tolerance B"
  shows "close_to r V"
proof -
  obtain c d a b where B: "B = (c, d, a, b)" by (cases B)
  from t w have r: "\<bar>r - (c * V + d)\<bar> \<le> a * \<bar>V\<bar> + b"
    and a: "a + \<bar>c - 1\<bar> \<le> 1 / 10 ^ 6" and b: "b + \<bar>d\<bar> \<le> 1 / 10 ^ 3"
    by (simp_all add: B)
  have "\<bar>r - V\<bar> = \<bar>(r - (c * V + d)) + ((c - 1) * V + d)\<bar>"
    by (simp add: algebra_simps)
  also have "\<dots> \<le> \<bar>r - (c * V + d)\<bar> + \<bar>(c - 1) * V + d\<bar>"
    by (rule abs_triangle_ineq)
  also have "\<dots> \<le> \<bar>r - (c * V + d)\<bar> + (\<bar>(c - 1) * V\<bar> + \<bar>d\<bar>)"
    by (intro add_left_mono abs_triangle_ineq)
  also have "\<dots> \<le> (a * \<bar>V\<bar> + b) + (\<bar>c - 1\<bar> * \<bar>V\<bar> + \<bar>d\<bar>)"
    using r by (simp add: abs_mult)
  also have "\<dots> = (a + \<bar>c - 1\<bar>) * \<bar>V\<bar> + (b + \<bar>d\<bar>)"
    by (simp add: algebra_simps)
  also have "\<dots> \<le> 1 / 10 ^ 6 * \<bar>V\<bar> + 1 / 10 ^ 3"
    using a b by (intro add_mono mult_right_mono) simp_all
  finally show ?thesis by (simp add: close_to_def)
qed

lemma tracks_ratio:
  assumes t: "tracks r V B" and w: "within_ratio q t B"
  shows "\<bar>r - V * q\<bar> \<le> \<bar>V * q\<bar> / 10 ^ 6 + t"
proof -
  obtain c d a b where B: "B = (c, d, a, b)" by (cases B)
  from t w have r: "\<bar>r - (c * V + d)\<bar> \<le> a * \<bar>V\<bar> + b"
    and q: "0 \<le> q" and a: "a + \<bar>c - q\<bar> \<le> q / 10 ^ 6" and b: "b + \<bar>d\<bar> \<le> t"
    by (simp_all add: B)
  have "\<bar>r - V * q\<bar> = \<bar>(r - (c * V + d)) + ((c - q) * V + d)\<bar>"
    by (simp add: algebra_simps)
  also have "\<dots> \<le> \<bar>r - (c * V + d)\<bar> + \<bar>(c - q) * V + d\<bar>"
    by (rule abs_triangle_ineq)
  also have "\<dots> \<le> \<bar>r - (c * V + d)\<bar> + (\<bar>(c - q) * V\<bar> + \<bar>d\<bar>)"
    by (intro add_left_mono abs_triangle_ineq)
  also have "\<dots> \<le> (a * \<bar>V\<bar> + b) + (\<bar>c - q\<bar> * \<bar>V\<bar> + \<bar>d\<bar>)"
    using r by (simp add: abs_mult)
  also have "\<dots> = (a + \<bar>c - q\<bar>) * \<bar>V\<bar> + (b + \<bar>d\<bar>)"
    by (simp add: algebra_simps)
  also have "\<dots> \<le> q / 10 ^ 6 * \<bar>V\<bar> + t"
    using a b by (intro add_mono mult_right_mono) simp_all
  also have "\<dots> = \<bar>V * q\<bar> / 10 ^ 6 + t"
    using q by (simp add: abs_mult)
  finally show ?thesis .
qed

lemma run_append: "run (ss @ ts) v = run ts (run ss v)"
  by (induction ss v rule: run.induct) simp_all

lemma run_finite: "is_finite (run ss v) \<Longrightarrow> is_finite v"
proof (induction ss v rule: run.induct)
  case (1 v)
  then show ?case by simp
next
  case (2 l ss v)
  then have "is_finite (linear_forward l v)" by simp
  then show ?case by (rule linear_forward_finite)
next
  case (3 l ss v)
  then have "is_finite (linear_backward l v)" by simp
  then show ?case by (rule linear_backward_finite)
qed

lemma run_tracks:
  "is_finite (run ss v) \<Longrightarrow> tracks (valof v) V B \<Longrightarrow> tracks (valof (run ss v)) V (run_bound ss B)"
proof (induction ss v arbitrary: B rule: run.induct)
  case (1 v)
  then show ?case by simp
next
  case (2 l ss v)
  from "2.prems"(1) have "is_finite (linear_forward l v)"
    by (simp add: run_finite)
  then have "tracks (valof (linear_forward l v)) V (forward_bound l B)"
    using "2.prems"(2) by (rule linear_forward_tracks)
  with "2.IH" "2.prems"(1) show ?case by simp
next
  case (3 l ss v)
  from "3.prems"(1) have "is_finite (linear_backward l v)"
    by (simp add: run_finite)
  then have "tracks (valof (linear_backward l v)) V (backward_bound l B)"
    using "3.prems"(2) by (rule linear_backward_tracks)
  with "3.IH" "3.prems"(1) show ?case by simp
qed

lemma run_close:
  assumes "is_finite (run ss v)" and "within_tolerance (run_bound ss (1, 0, 0, 0))"
  shows "close_to (valof (run ss v)) (valof v)"
  using run_tracks [OF assms(1) tracks_start] assms(2) by (rule tracks_close)

lemmas bound_eval = forward_bound_def backward_bound_def grow_def unit_roundoff_def
  underflow_unit_def pow2_def sgn_of_def

lemma declared_conversions:
  assumes "metric_conversion_type p m = Inr l"
  shows "(p, m) \<in> {(gramm, lb), (gramm, pood), (meter, mile), (meter, verst),
           (celsius, fahrenheit), (celsius, kelvin)}"
  using assms by (cases p; cases m) simp_all

lemma minor_pairs:
  assumes "g \<in> {weight_metrics, distance_metrics, temperature_metrics}"
    and "first_minor \<in> set (tl g)" and "second_minor \<in> set (tl g)"
    and "first_minor \<noteq> second_minor"
  shows  "(hd g, first_minor, second_minor) \<in>
      {(gramm, lb, pood), (gramm, pood, lb), (meter, mile, verst), (meter, verst, mile),
       (celsius, fahrenheit, kelvin), (celsius, kelvin, fahrenheit)}"
proof -
  from assms(1) consider "g = weight_metrics" | "g = distance_metrics" | "g = temperature_metrics"
    by blast
  then show ?thesis
  proof cases
    case 1
    with assms(2,3) have "first_minor = lb \<or> first_minor = pood"
      and "second_minor = lb \<or> second_minor = pood"
      by (simp_all add: weight_metrics_def)
    with assms(4) have "first_minor = lb \<and> second_minor = pood \<or> first_minor = pood \<and> second_minor = lb"
      by blast
    then show ?thesis by (simp add: 1 weight_metrics_def)
  next
    case 2
    with assms(2,3) have "first_minor = mile \<or> first_minor = verst"
      and "second_minor = mile \<or> second_minor = verst"
      by (simp_all add: distance_metrics_def)
    with assms(4) have "first_minor = mile \<and> second_minor = verst \<or> first_minor = verst \<and> second_minor = mile"
      by blast
    then show ?thesis by (simp add: 2 distance_metrics_def)
  next
    case 3
    with assms(2,3) have "first_minor = fahrenheit \<or> first_minor = kelvin"
      and "second_minor = fahrenheit \<or> second_minor = kelvin"
      by (simp_all add: temperature_metrics_def)
    with assms(4) have "first_minor = fahrenheit \<and> second_minor = kelvin \<or> first_minor = kelvin \<and> second_minor = fahrenheit"
      by blast
    then show ?thesis by (simp add: 3 temperature_metrics_def)
  qed
qed

lemma process_minor_minor:
  assumes "(p, first_minor, second_minor) \<in>
      {(gramm, lb, pood), (gramm, pood, lb), (meter, mile, verst), (meter, verst, mile),
       (celsius, fahrenheit, kelvin), (celsius, kelvin, fahrenheit)}"
    and "metric_conversion_type p first_minor = Inr l1"
    and "metric_conversion_type p second_minor = Inr l2"
  shows "process (signature second_minor) (signature first_minor) v =
           Inr (Some (run [backward_step p first_minor l1, forward_step p second_minor l2] v))"
  using assms
  by (elim insertE emptyE)
    (simp_all add: process_def converter_chain is_reponsible_def converter_factory_converter_def del: metric_conversion_type.simps)

lemma minor_round_trip_steps:
  assumes t: "(p, m1, m2) \<in>
      {(gramm, lb, pood), (gramm, pood, lb), (meter, mile, verst), (meter, verst, mile),
       (celsius, fahrenheit, kelvin), (celsius, kelvin, fahrenheit)}"
    and c1: "metric_conversion_type p m1 = Inr l1"
    and c2: "metric_conversion_type p m2 = Inr l2"
    and tol: "within_tolerance (run_bound
       [backward_step p m2 l2, forward_step p m1 l1, backward_step p m1 l1, forward_step p m2 l2]
       (1, 0, 0, 0))"
  shows "\<exists>w r. process (signature m1) (signature m2) v = Inr (Some w) \<and>
           process (signature m2) (signature m1) w = Inr (Some r) \<and>
           (is_finite r \<longrightarrow> close_to (valof r) (valof v))"
proof -
  from t have t': "(p, m2, m1) \<in>
      {(gramm, lb, pood), (gramm, pood, lb), (meter, mile, verst), (meter, verst, mile),
       (celsius, fahrenheit, kelvin), (celsius, kelvin, fahrenheit)}"
    by (elim insertE emptyE) simp_all
  let ?s1 = "[backward_step p m2 l2, forward_step p m1 l1]"
  let ?s2 = "[backward_step p m1 l1, forward_step p m2 l2]"
  have 1: "process (signature m1) (signature m2) v = Inr (Some (run ?s1 v))"
    using t' c2 c1 by (rule process_minor_minor)
  have 2: "process (signature m2) (signature m1) (run ?s1 v) = Inr (Some (run ?s2 (run ?s1 v)))"
    using t c1 c2 by (rule process_minor_minor)
  have r: "run ?s2 (run ?s1 v) = run (?s1 @ ?s2) v"
    by (simp only: run_append)
  have "is_finite (run (?s1 @ ?s2) v) \<longrightarrow> close_to (valof (run (?s1 @ ?s2) v)) (valof v)"
    using tol by (auto intro: run_close)
  with 1 2 show ?thesis unfolding r by blast
qed

lemma minor_ratio_steps:
  assumes t: "(p, first_minor, second_minor) \<in>
      {(gramm, lb, pood), (gramm, pood, lb), (meter, mile, verst), (meter, verst, mile),
       (celsius, fahrenheit, kelvin), (celsius, kelvin, fahrenheit)}"
    and c1: "metric_conversion_type p first_minor = Inr l1"
    and c2: "metric_conversion_type p second_minor = Inr l2"
    and tol: "within_ratio (valof (m_factor l2) / valof (m_factor l1)) (1 / 2 ^ 130)
       (run_bound [backward_step p first_minor l1, forward_step p second_minor l2] (1, 0, 0, 0))"
  shows "\<exists>r. process (signature second_minor) (signature first_minor) v = Inr (Some r) \<and>
           (is_finite r \<longrightarrow>
              \<bar>valof r - valof v * (valof (m_factor l2) / valof (m_factor l1))\<bar>
                \<le> \<bar>valof v * (valof (m_factor l2) / valof (m_factor l1))\<bar> / 10 ^ 6 + 1 / 2 ^ 130)"
proof -
  let ?s = "[backward_step p first_minor l1, forward_step p second_minor l2]"
  have 1: "process (signature second_minor) (signature first_minor) v = Inr (Some (run ?s v))"
    using t c1 c2 by (rule process_minor_minor)
  have "\<bar>valof (run ?s v) - valof v * (valof (m_factor l2) / valof (m_factor l1))\<bar>
      \<le> \<bar>valof v * (valof (m_factor l2) / valof (m_factor l1))\<bar> / 10 ^ 6 + 1 / 2 ^ 130"
    if "is_finite (run ?s v)"
    using run_tracks [OF that tracks_start] tol by (rule tracks_ratio)
  with 1 show ?thesis by blast
qed


section \<open>Round trips\<close>

text \<open>
  C8 (amended). For each of the six declared conversions and every value \<open>v\<close>: when
  \<open>backward (forward v)\<close> is finite, it is within the tolerance of \<open>v\<close> (relative
  \<open>10^-6\<close>, absolute \<open>10^-3\<close>), and so is \<open>forward (backward v)\<close> when it is finite. The
  swapped celsius/fahrenheit pair is one of the six.
\<close>

theorem transform_round_trip:
  assumes l: "metric_conversion_type p m = Inr l"
  shows "(is_finite (backward p m l (forward p m l v)) \<longrightarrow>
           close_to (valof (backward p m l (forward p m l v))) (valof v)) \<and>
         (is_finite (forward p m l (backward p m l v)) \<longrightarrow>
           close_to (valof (forward p m l (backward p m l v))) (valof v))"
proof -
  have fb: "run [Fwd l, Bwd l] v = linear_backward l (linear_forward l v)"
    and bf: "run [Bwd l, Fwd l] v = linear_forward l (linear_backward l v)"
    by simp_all
  have tol: "within_tolerance (run_bound [Fwd l, Bwd l] (1, 0, 0, 0)) \<and>
             within_tolerance (run_bound [Bwd l, Fwd l] (1, 0, 0, 0))"
    using declared_conversions [OF l] l
    by (auto simp add: conversions bound_eval simp del: metric_conversion_type.simps)
  from declared_conversions [OF l] have
    "(forward p m = linear_forward \<and> backward p m = linear_backward) \<or>
     (forward p m = linear_backward \<and> backward p m = linear_forward)"
    by (auto simp add: fun_eq_iff)
  then show ?thesis
    using run_close [of "[Fwd l, Bwd l]" v] run_close [of "[Bwd l, Fwd l]" v] tol
    unfolding fb bf by auto
qed

theorem transform_round_trip_witness:
  "close_to (valof (backward gramm lb
       \<lparr>m_factor = Fin32 False 14863303 (- 15), m_divider = Fin32 False 9468790 (- 32),
          m_offset = Fin32 False 0 (- 149)\<rparr>
       (forward gramm lb
         \<lparr>m_factor = Fin32 False 14863303 (- 15), m_divider = Fin32 False 9468790 (- 32),
            m_offset = Fin32 False 0 (- 149)\<rparr> (f32_lit 1000 1)))) (valof (f32_lit 1000 1)) \<and>
   close_to (valof (forward celsius fahrenheit
       \<lparr>m_factor = Fin32 False 15099494 (- 23), m_divider = Fin32 False 9320676 (- 24),
          m_offset = Fin32 False 8388608 (- 18)\<rparr>
       (backward celsius fahrenheit
         \<lparr>m_factor = Fin32 False 15099494 (- 23), m_divider = Fin32 False 9320676 (- 24),
            m_offset = Fin32 False 8388608 (- 18)\<rparr> (f32_lit 100 1)))) (valof (f32_lit 100 1))"
  using transform_round_trip [OF conversion_gramm_lb, of "f32_lit 1000 1"]
    transform_round_trip [OF conversion_celsius_fahrenheit, of "f32_lit 100 1"]
  by (simp add: linear_forward_def linear_backward_def f32_eval)

text \<open>The claim as stated, for any finite \<open>v\<close>, fails at the largest finite float
  \<open>(2^24 - 1) * 2^104\<close>: with the (gramm, lb) conversion \<open>forward\<close> overflows to
  infinity, and \<open>backward\<close> of infinity is infinity.\<close>

theorem transform_round_trip_overflow:
  "metric_conversion_type gramm lb =
     Inr \<lparr>m_factor = Fin32 False 14863303 (- 15), m_divider = Fin32 False 9468790 (- 32),
          m_offset = Fin32 False 0 (- 149)\<rparr> \<and>
   is_f32 (Fin32 False 16777215 104) \<and> is_finite (Fin32 False 16777215 104) \<and>
   backward gramm lb
     \<lparr>m_factor = Fin32 False 14863303 (- 15), m_divider = Fin32 False 9468790 (- 32),
        m_offset = Fin32 False 0 (- 149)\<rparr>
     (forward gramm lb
       \<lparr>m_factor = Fin32 False 14863303 (- 15), m_divider = Fin32 False 9468790 (- 32),
          m_offset = Fin32 False 0 (- 149)\<rparr> (Fin32 False 16777215 104)) = Inf32 False"
  by (simp add: conversion_gramm_lb linear_forward_def linear_backward_def f32_eval
      del: metric_conversion_type.simps)

text \<open>
  C9 (amended). For two distinct minors \<open>m1\<close>, \<open>m2\<close> of one group and every value \<open>v\<close>,
  \<open>process(m1, m2, v)\<close> returns a value \<open>w\<close> and \<open>process(m2, m1, w)\<close> returns a value
  \<open>r\<close>; when \<open>r\<close> is finite it is within the tolerance of \<open>v\<close> (relative \<open>10^-6\<close>,
  absolute \<open>10^-3\<close>).
\<close>

theorem minor_minor_round_trip:
  assumes "g \<in> {weight_metrics, distance_metrics, temperature_metrics}"
    and "m1 \<in> set (tl g)" and "m2 \<in> set (tl g)" and "m1 \<noteq> m2"
  shows "\<exists>w r. process (signature m1) (signature m2) v = Inr (Some w) \<and>
           process (signature m2) (signature m1) w = Inr (Some r) \<and>
           (is_finite r \<longrightarrow> close_to (valof r) (valof v))"
proof -
  note t = minor_pairs [OF assms]
  then consider
      "m1 = lb" "m2 = pood" | "m1 = pood" "m2 = lb"
    | "m1 = mile" "m2 = verst" | "m1 = verst" "m2 = mile"
    | "m1 = fahrenheit" "m2 = kelvin" | "m1 = kelvin" "m2 = fahrenheit"
    by (elim insertE emptyE) simp_all
  then show ?thesis
  proof cases
    case 1
    show ?thesis unfolding 1
      by (rule minor_round_trip_steps [OF _ conversion_gramm_lb conversion_gramm_pood])
        (simp_all add: bound_eval)
  next
    case 2
    show ?thesis unfolding 2
      by (rule minor_round_trip_steps [OF _ conversion_gramm_pood conversion_gramm_lb])
        (simp_all add: bound_eval)
  next
    case 3
    show ?thesis unfolding 3
      by (rule minor_round_trip_steps [OF _ conversion_meter_mile conversion_meter_verst])
        (simp_all add: bound_eval)
  next
    case 4
    show ?thesis unfolding 4
      by (rule minor_round_trip_steps [OF _ conversion_meter_verst conversion_meter_mile])
        (simp_all add: bound_eval)
  next
    case 5
    show ?thesis unfolding 5
      by (rule minor_round_trip_steps [OF _ conversion_celsius_fahrenheit conversion_celsius_kelvin])
        (simp_all add: bound_eval)
  next
    case 6
    show ?thesis unfolding 6
      by (rule minor_round_trip_steps [OF _ conversion_celsius_kelvin conversion_celsius_fahrenheit])
        (simp_all add: bound_eval)
  qed
qed

theorem minor_minor_round_trip_witness:
  "process ''lb'' ''p'' (Fin32 False 8388608 (- 23)) = Inr (Some (Fin32 False 14866297 (- 29))) \<and>
   process ''p'' ''lb'' (Fin32 False 14866297 (- 29)) = Inr (Some (Fin32 False 8388608 (- 23))) \<and>
   close_to (valof (Fin32 False 8388608 (- 23))) (valof (Fin32 False 8388608 (- 23))) \<and>
   process ''f'' ''k'' (Fin32 False 8388608 (- 18)) = Inr (Some (Fin32 True 9945088 (- 16))) \<and>
   process ''k'' ''f'' (Fin32 True 9945088 (- 16)) = Inr (Some (Fin32 False 8388608 (- 18))) \<and>
   close_to (valof (Fin32 False 8388608 (- 18))) (valof (Fin32 False 8388608 (- 18)))"
proof -
  have a: "process ''lb'' ''p'' (Fin32 False 8388608 (- 23)) = Inr (Some (Fin32 False 14866297 (- 29)))"
    and b: "process ''p'' ''lb'' (Fin32 False 14866297 (- 29)) = Inr (Some (Fin32 False 8388608 (- 23)))"
    and c: "process ''f'' ''k'' (Fin32 False 8388608 (- 18)) = Inr (Some (Fin32 True 9945088 (- 16)))"
    and d: "process ''k'' ''f'' (Fin32 True 9945088 (- 16)) = Inr (Some (Fin32 False 8388608 (- 18)))"
    by (simp_all add: process_eval f32_eval del: metric_conversion_type.simps)
  from minor_minor_round_trip [of weight_metrics lb pood "Fin32 False 8388608 (- 23)"]
  obtain w r where w: "process ''lb'' ''p'' (Fin32 False 8388608 (- 23)) = Inr (Some w)"
    and r: "process ''p'' ''lb'' w = Inr (Some r)"
    and cl: "is_finite r \<longrightarrow> close_to (valof r) (valof (Fin32 False 8388608 (- 23)))"
    by (auto simp add: weight_metrics_def)
  from w a have "w = Fin32 False 14866297 (- 29)" by simp
  with r b have "r = Fin32 False 8388608 (- 23)" by simp
  with cl have 1: "close_to (valof (Fin32 False 8388608 (- 23))) (valof (Fin32 False 8388608 (- 23)))"
    by simp
  from minor_minor_round_trip
    [of temperature_metrics fahrenheit kelvin "Fin32 False 8388608 (- 18)"]
  obtain w' r' where w': "process ''f'' ''k'' (Fin32 False 8388608 (- 18)) = Inr (Some w')"
    and r': "process ''k'' ''f'' w' = Inr (Some r')"
    and cl': "is_finite r' \<longrightarrow> close_to (valof r') (valof (Fin32 False 8388608 (- 18)))"
    by (auto simp add: temperature_metrics_def)
  from w' c have "w' = Fin32 True 9945088 (- 16)" by simp
  with r' d have "r' = Fin32 False 8388608 (- 18)" by simp
  with cl' have 2: "close_to (valof (Fin32 False 8388608 (- 18))) (valof (Fin32 False 8388608 (- 18)))"
    by simp
  from a b c d 1 2 show ?thesis by (simp only: simp_thms)
qed

text \<open>The claim as stated, for any value \<open>v\<close>, fails at the largest finite float: from
  \<open>"p"\<close> to \<open>"lb"\<close> the conversion overflows to infinity, which the way back leaves
  infinite.\<close>

theorem minor_minor_overflow:
  "is_f32 (Fin32 False 16777215 104) \<and> is_finite (Fin32 False 16777215 104) \<and>
   process ''p'' ''lb'' (Fin32 False 16777215 104) = Inr (Some (Inf32 False)) \<and>
   process ''lb'' ''p'' (Inf32 False) = Inr (Some (Inf32 False))"
  by (simp add: process_eval f32_eval del: metric_conversion_type.simps)

text \<open>
  C10 (amended). In the weight and distance groups, for two distinct minors,
  \<open>process(second, first, v)\<close> returns a value \<open>r\<close> which, when finite, equals
  \<open>v * factor(primary, second) / factor(primary, first)\<close> up to the rounding of single
  precision: a relative error of at most \<open>10^-6\<close>, and \<open>2^-130\<close> for underflow.
\<close>

theorem minor_ratio_conversion:
  assumes g: "g \<in> {weight_metrics, distance_metrics}"
    and m: "first_minor \<in> set (tl g)" "second_minor \<in> set (tl g)" "first_minor \<noteq> second_minor"
    and c1: "metric_conversion_type (hd g) first_minor = Inr l1"
    and c2: "metric_conversion_type (hd g) second_minor = Inr l2"
  shows "\<exists>r. process (signature second_minor) (signature first_minor) v = Inr (Some r) \<and>
           (is_finite r \<longrightarrow>
              \<bar>valof r - valof v * (valof (m_factor l2) / valof (m_factor l1))\<bar>
                \<le> \<bar>valof v * (valof (m_factor l2) / valof (m_factor l1))\<bar> / 10 ^ 6 + 1 / 2 ^ 130)"
proof -
  from g have g': "g \<in> {weight_metrics, distance_metrics, temperature_metrics}" by blast
  from g have p: "hd g = gramm \<or> hd g = meter"
    by (auto simp add: weight_metrics_def distance_metrics_def)
  note t = minor_pairs [OF g' m]
  with p consider
      "hd g = gramm" "first_minor = lb" "second_minor = pood"
    | "hd g = gramm" "first_minor = pood" "second_minor = lb"
    | "hd g = meter" "first_minor = mile" "second_minor = verst"
    | "hd g = meter" "first_minor = verst" "second_minor = mile"
    by (elim insertE emptyE disjE) simp_all
  then have "within_ratio (valof (m_factor l2) / valof (m_factor l1)) (1 / 2 ^ 130)
       (run_bound [backward_step (hd g) first_minor l1, forward_step (hd g) second_minor l2]
         (1, 0, 0, 0))"
    using c1 c2
    by cases (auto simp add: conversions bound_eval simp del: metric_conversion_type.simps)
  with t c1 c2 show ?thesis by (rule minor_ratio_steps)
qed

theorem minor_ratio_conversion_witness:
  "process ''p'' ''lb'' (Fin32 False 8388608 (- 23)) = Inr (Some (Fin32 False 9466883 (- 18))) \<and>
   \<bar>valof (Fin32 False 9466883 (- 18)) - valof (Fin32 False 8388608 (- 23)) *
       (valof (Fin32 False 16773837 (- 10)) / valof (Fin32 False 14863303 (- 15)))\<bar>
     \<le> \<bar>valof (Fin32 False 8388608 (- 23)) *
          (valof (Fin32 False 16773837 (- 10)) / valof (Fin32 False 14863303 (- 15)))\<bar> / 10 ^ 6
        + 1 / 2 ^ 130"
proof -
  have a: "process ''p'' ''lb'' (Fin32 False 8388608 (- 23)) = Inr (Some (Fin32 False 9466883 (- 18)))"
    by (simp add: process_eval f32_eval del: metric_conversion_type.simps)
  have h: "gramm = hd weight_metrics"
    by (simp add: weight_metrics_def)
  from minor_ratio_conversion [of weight_metrics lb pood _ _ "Fin32 False 8388608 (- 23)",
      OF _ _ _ _ conversion_gramm_lb [unfolded h] conversion_gramm_pood [unfolded h]]
  obtain r where r: "process ''p'' ''lb'' (Fin32 False 8388608 (- 23)) = Inr (Some r)"
    and cl: "is_finite r \<longrightarrow>
      \<bar>valof r - valof (Fin32 False 8388608 (- 23)) *
          (valof (Fin32 False 16773837 (- 10)) / valof (Fin32 False 14863303 (- 15)))\<bar>
      \<le> \<bar>valof (Fin32 False 8388608 (- 23)) *
          (valof (Fin32 False 16773837 (- 10)) / valof (Fin32 False 14863303 (- 15)))\<bar> / 10 ^ 6
        + 1 / 2 ^ 130"
    by (auto simp add: weight_metrics_def)
  from r a have "r = Fin32 False 9466883 (- 18)" by simp
  with cl a show ?thesis by simp
qed

text \<open>The claim as stated, an equality, fails at \<open>v = 1\<close> from \<open>"p"\<close> to \<open>"lb"\<close>: the
  result is the float 9466883 / 2^18, and the quotient of the two factors is no float.\<close>

theorem minor_ratio_not_exact:
  "process ''p'' ''lb'' (Fin32 False 8388608 (- 23)) = Inr (Some (Fin32 False 9466883 (- 18))) \<and>
   valof (Fin32 False 9466883 (- 18)) \<noteq>
     valof (Fin32 False 8388608 (- 23)) *
       (valof (Fin32 False 16773837 (- 10)) / valof (Fin32 False 14863303 (- 15)))"
  by (simp add: process_eval f32_eval pow2_def sgn_of_def del: metric_conversion_type.simps)

end
